theory Spec2Isabelle
  imports Complex_Main "HOL-Library.Log_Nat"
begin

section \<open>Python numbers\<close>

text \<open>
  The environment computes with Python floats (IEEE 754 binary64) and, inside NumPy
  arrays, with the array's element type. A float is modelled by the real number it
  denotes; every arithmetic operation computes the exact result and rounds it to the
  nearest representable number, ties to even. Gradual underflow is modelled by the least
  exponent \<open>emin\<close>. The exponent has no upper bound in the model: where binary64 delivers
  an infinity the model keeps the finite value that rounding with an unbounded exponent
  gives, of magnitude \<open>2^1024\<close> or more (\<open>overflows\<close>). Arithmetic on infinities and NaN,
  and the OverflowError that \<open>int\<close> and \<open>round\<close> raise on an infinity, are not
  modelled, so a theorem whose conclusion depends on such a value has the hypothesis
  that it does not overflow. A Python \<open>int\<close> that takes part in float arithmetic is
  first converted with \<open>py_float\<close>.
\<close>

definition py_round :: "real \<Rightarrow> int" where
  \<comment> \<open>\<open>round(x)\<close>: the nearest integer, ties to the even one.\<close>
  "py_round x = (let f = \<lfloor>x\<rfloor>; d = x - of_int f in
     if d < 1 / 2 then f else if 1 / 2 < d then f + 1 else if even f then f else f + 1)"

definition py_int :: "real \<Rightarrow> int" where
  \<comment> \<open>\<open>int(x)\<close>: truncation towards zero.\<close>
  "py_int x = (if 0 \<le> x then \<lfloor>x\<rfloor> else \<lceil>x\<rceil>)"

definition binade :: "real \<Rightarrow> int" where
  \<comment> \<open>the exponent \<open>k\<close> with \<open>2^k \<le> |x| < 2^(k+1)\<close>, for \<open>x \<noteq> 0\<close>\<close>
  "binade x = (if 1 \<le> \<bar>x\<bar> then bitlen \<lfloor>\<bar>x\<bar>\<rfloor> - 1 else - bitlen (\<lceil>1 / \<bar>x\<bar>\<rceil> - 1))"

record format =
  precision :: nat
  emin :: int

definition expo :: "format \<Rightarrow> real \<Rightarrow> int" where
  \<comment> \<open>the exponent of the last place of the format at \<open>x\<close>\<close>
  "expo fmt x = max (binade x - (int (precision fmt) - 1)) (emin fmt)"

definition round_to :: "format \<Rightarrow> real \<Rightarrow> real" where
  "round_to fmt x = (if x = 0 then 0 else
     sgn x * (of_int (py_round (\<bar>x\<bar> / 2 powi expo fmt x)) * 2 powi expo fmt x))"

definition binary64 :: format where
  "binary64 = \<lparr>precision = 53, emin = - 1074\<rparr>"

definition binary32 :: format where
  "binary32 = \<lparr>precision = 24, emin = - 149\<rparr>"

definition fl64 :: "real \<Rightarrow> real" where
  "fl64 x = round_to binary64 x"

definition overflows :: "real \<Rightarrow> bool" where
  \<comment> \<open>the binary64 operation whose model value is \<open>x\<close> delivers an infinity\<close>
  "overflows x = (2 ^ 1024 \<le> \<bar>x\<bar>)"

definition py_float :: "int \<Rightarrow> real" where
  "py_float n = fl64 (of_int n)"

definition fadd :: "real \<Rightarrow> real \<Rightarrow> real" where
  "fadd x y = fl64 (x + y)"

definition fsub :: "real \<Rightarrow> real \<Rightarrow> real" where
  "fsub x y = fl64 (x - y)"

definition fmul :: "real \<Rightarrow> real \<Rightarrow> real" where
  "fmul x y = fl64 (x * y)"

datatype error =
    AssertionError
  | ZeroDivisionError
  | KeyError string
  | AttributeError string
  | TypeError
  | ValueError

definition fdiv_int :: "real \<Rightarrow> int \<Rightarrow> error + real" where
  \<comment> \<open>\<open>x / n\<close> for a float \<open>x\<close> and an int \<open>n\<close>\<close>
  "fdiv_int x n = (if n = 0 then Inl ZeroDivisionError else Inr (fl64 (x / py_float n)))"

definition try_bind :: "error + 'a \<Rightarrow> ('a \<Rightarrow> error + 'b) \<Rightarrow> error + 'b" where
  "try_bind r f = (case r of Inl e \<Rightarrow> Inl e | Inr v \<Rightarrow> f v)"

definition getitem :: "(string \<rightharpoonup> 'v) \<Rightarrow> string \<Rightarrow> error + 'v" where
  \<comment> \<open>\<open>d[k]\<close> on a dict\<close>
  "getitem d k = (case d k of None \<Rightarrow> Inl (KeyError k) | Some v \<Rightarrow> Inr v)"

subsection \<open>NumPy arrays\<close>

definition scalar_mul :: "format \<Rightarrow> real \<Rightarrow> real list \<Rightarrow> real list" where
  \<comment> \<open>a Python scalar times an array: the scalar takes the array's element type\<close>
  "scalar_mul dt a v = map (\<lambda>x. round_to dt (round_to dt a * x)) v"

definition array_add :: "format \<Rightarrow> real list \<Rightarrow> real list \<Rightarrow> real list" where
  "array_add dt v w = map2 (\<lambda>x y. round_to dt (x + y)) v w"

fun isqrt :: "nat \<Rightarrow> nat" where
  \<comment> \<open>the integer square root, two bits at a time\<close>
  "isqrt n = (if n < 2 then n
              else let r = 2 * isqrt (n div 4) in if (r + 1) * (r + 1) \<le> n then r + 1 else r)"

declare isqrt.simps [simp del]

definition sqrt_round :: "real \<Rightarrow> int" where
  \<comment> \<open>the integer nearest to the square root of \<open>y \<ge> 0\<close>, ties to the even one\<close>
  "sqrt_round y = (let f = int (isqrt (nat \<lfloor>y\<rfloor>)); h = (of_int f + 1 / 2) ^ 2 in
     if y < h then f else if h < y then f + 1 else if even f then f else f + 1)"

definition fsqrt :: "real \<Rightarrow> real" where
  \<comment> \<open>a binary64 square root: the integer square root of the scaled argument, rounded
      to 53 bits\<close>
  "fsqrt x = (if x \<le> 0 then 0 else
     let e = max (binade x div 2 - 52) (- 1074)
     in of_int (sqrt_round (x / 2 powi (2 * e))) * 2 powi e)"

definition euclid_norm :: "real list \<Rightarrow> real" where
  \<comment> \<open>one way to compute the Euclidean norm in binary64: the squares summed from left
      to right, then the square root\<close>
  "euclid_norm v = fsqrt (foldl fadd 0 (map (\<lambda>x. fmul x x) v))"

section \<open>The robot driver and the other collaborators\<close>

text \<open>
  The driver (\<open>SimFinger\<close> or \<open>RealFinger\<close>) is outside the sources. It is modelled by
  the history of the calls it has received, oldest first; what it answers is a function
  of that history, supplied by the record \<open>collab\<close> together with the scaling
  functions of \<open>utils\<close>, the element type of the unscaled action array and NumPy's
  norm. NumPy does not fix the order in which \<open>np.linalg.norm\<close> sums, nor its rounding,
  so the norm is a parameter as well.
\<close>

datatype event =
    Create bool bool string string
      \<comment> \<open>use_real_robot, enable_visualization, finger_type, sampling_strategy\<close>
  | DisplayGoal
  | SetAction "real list" string
  | StepRobot bool
  | ResetFinger
  | SampleJointPositions
  | ResetGoalMarkers "real list list"
  | ConnectToSimulation bool

datatype log_entry =
    Append "real list" "real list"
  | NewEpisode "real list" "real list list"

record collab =
  observation :: "event list \<Rightarrow> real list \<times> real list"
    \<comment> \<open>\<open>finger.observation\<close>: joint positions and joint velocities\<close>
  forward_kinematics :: "real list \<Rightarrow> real list list"
  reset_finger :: "event list \<Rightarrow> real list"
  sample_random_joint_positions_for_reaching :: "event list \<Rightarrow> real list"
  unscale :: "nat \<Rightarrow> real list \<Rightarrow> real list"
    \<comment> \<open>\<open>utils.unscale\<close> with the unscaled action space of that many fingers\<close>
  scale :: "nat \<Rightarrow> real list \<Rightarrow> real list"
    \<comment> \<open>\<open>utils.scale\<close> with the unscaled observation space of that many fingers\<close>
  dtype :: format
    \<comment> \<open>element type of the array that \<open>utils.unscale\<close> returns\<close>
  linalg_norm :: "real list \<Rightarrow> real"
    \<comment> \<open>\<open>np.linalg.norm\<close> of a flat vector\<close>

definition compute_distance :: "collab \<Rightarrow> real list list \<Rightarrow> real list list \<Rightarrow> real" where
  \<comment> \<open>Modelled from the spec: \<open>utils.compute_distance\<close> is not among the sources; the
      spec has the Euclidean distance from the end-effector position(s) to the goal,
      taken over all coordinates of all fingers: the norm of the difference.\<close>
  "compute_distance c a b = linalg_norm c (concat (map2 (map2 fsub) a b))"

section \<open>The environment\<close>

record args =
  control_rate_s :: real
  enable_visualization :: bool
  finger_type :: string
  smoothing_params :: "string \<rightharpoonup> real"
  velocity_cost :: real
  sampling_strategy :: string
  use_real_robot :: bool
  finger_config_suffix :: string
  synchronize :: bool

datatype bound = Fin int | Infinity

fun less_bound :: "int \<Rightarrow> bound \<Rightarrow> bool" where
  "less_bound n (Fin m) = (n < m)"
| "less_bound n Infinity = True"

record env =
  num_fingers :: nat
  steps_per_control :: int
  smoothing_start_episode :: int
  smoothing_alpha :: real
  smoothing_increase_step :: real
  smoothing_stop_episode :: bound
  smoothed_action :: "real list option"
  episode_count :: int
  velocity_cost_factor :: real
  finger :: "event list"
  logger :: "log_entry list"
  next_start_time :: "nat option"
  goal :: "real list list option"
    \<comment> \<open>\<open>None\<close>: the attribute has not been assigned yet\<close>

definition observations_keys :: "string list" where
  "observations_keys =
     [''joint_positions'', ''joint_velocities'', ''goal_position'', ''action_joint_positions'']"

definition observations_sizes :: "nat \<Rightarrow> nat list" where
  "observations_sizes nf = [3 * nf, 3 * nf, 3 * nf, 3 * nf]"

fun key_ranges :: "string list \<Rightarrow> nat list \<Rightarrow> nat \<Rightarrow> (string \<times> nat \<times> nat) list" where
  "key_ranges (k # ks) (n # ns) off = (k, off, off + n) # key_ranges ks ns (off + n)"
| "key_ranges _ _ _ = []"

definition key_to_index :: "nat \<Rightarrow> string \<rightharpoonup> nat \<times> nat" where
  \<comment> \<open>Modelled from the spec: \<open>FingerSpaces\<close> is not among the sources; the spec has
      cumulative offsets mapping each key to its contiguous index range.\<close>
  "key_to_index nf = map_of (key_ranges observations_keys (observations_sizes nf) 0)"

definition slice :: "'a list \<Rightarrow> nat \<times> nat \<Rightarrow> 'a list" where
  \<comment> \<open>\<open>xs[a:b]\<close>\<close>
  "slice xs r = take (snd r - fst r) (drop (fst r) xs)"

subsection \<open>Construction: control rate and smoothing schedule\<close>

definition simulation_rate_s :: real where
  "simulation_rate_s = fl64 (4 / 1000)"

definition init_steps_per_control :: "real \<Rightarrow> error + int" where
  \<comment> \<open>lines 73 to 76 of \<open>__init__\<close>\<close>
  "init_steps_per_control rate =
     (let steps = py_round (fl64 (rate / simulation_rate_s))
      in if \<bar>fsub rate (fmul (py_float steps) simulation_rate_s)\<bar> \<le> fl64 (1 / 1000000)
         then Inr steps else Inl AssertionError)"

definition init_smoothing :: "(string \<rightharpoonup> real) \<Rightarrow> error + int \<times> real \<times> real \<times> bound" where
  \<comment> \<open>lines 78 to 95 of \<open>__init__\<close>: start episode, alpha, increase step, stop episode\<close>
  "init_smoothing params =
     (if params ''is_test'' \<noteq> None then
        try_bind (getitem params ''final_alpha'') (\<lambda>final_alpha.
        Inr (0, final_alpha, 0, Infinity))
      else
        try_bind (getitem params ''num_episodes'') (\<lambda>num_episodes.
        try_bind (getitem params ''stop_after'') (\<lambda>stop_after.
        let stop_episode = py_int (fmul num_episodes stop_after) in
        try_bind (getitem params ''start_after'') (\<lambda>start_after.
        let start_episode = py_int (fmul num_episodes start_after);
            num_smoothing_increase_steps = stop_episode - start_episode in
        try_bind (getitem params ''final_alpha'') (\<lambda>final_alpha.
        try_bind (fdiv_int final_alpha num_smoothing_increase_steps) (\<lambda>increase_step.
        Inr (start_episode, 0, increase_step, Fin stop_episode)))))))"

subsection \<open>Observation and reward\<close>

definition get_observation ::
    "collab \<Rightarrow> env \<Rightarrow> real list \<Rightarrow> bool \<Rightarrow> error + real list \<times> env" where
  "get_observation c s action log_observation =
     (let tip_positions = forward_kinematics c (fst (observation c (finger s)));
          end_effector_position = concat tip_positions;
          joint_positions = fst (observation c (finger s));
          joint_velocities = snd (observation c (finger s))
      in case goal s of
           None \<Rightarrow> Inl (AttributeError ''goal'')
         | Some g \<Rightarrow>
            (let flat_goals = concat g;
                 end_effector_to_goal = map2 fsub flat_goals end_effector_position;
                 observation_dict =
                   [''end_effector_position'' \<mapsto> end_effector_position,
                    ''joint_positions'' \<mapsto> joint_positions,
                    ''joint_velocities'' \<mapsto> joint_velocities,
                    ''end_effector_to_goal'' \<mapsto> end_effector_to_goal,
                    ''goal_position'' \<mapsto> flat_goals,
                    ''action_joint_positions'' \<mapsto> action];
                 s' = (if log_observation
                       then s\<lparr>logger := logger s @ [Append joint_positions end_effector_position]\<rparr>
                       else s)
             in Inr (concat (map (\<lambda>key. case observation_dict key of
                                            None \<Rightarrow> [] | Some v \<Rightarrow> v) observations_keys), s')))"

definition compute_reward ::
    "collab \<Rightarrow> env \<Rightarrow> real list option \<Rightarrow> real list list \<Rightarrow> error + real \<times> bool" where
  "compute_reward c s obs g =
     (case obs of
        None \<Rightarrow> Inl TypeError
      | Some ob \<Rightarrow>
         try_bind (getitem (key_to_index (num_fingers s)) ''joint_positions'') (\<lambda>pos_range.
         let joint_positions = slice ob pos_range;
             end_effector_positions = forward_kinematics c joint_positions in
         try_bind (getitem (key_to_index (num_fingers s)) ''joint_velocities'') (\<lambda>vel_range.
         let velocity = linalg_norm c (slice ob vel_range);
             distance_to_goal = compute_distance c end_effector_positions g;
             reward = fsub (- distance_to_goal) (fmul (velocity_cost_factor s) velocity);
             done_signal = False
         in Inr (fmul reward (py_float (steps_per_control s)), done_signal))))"

subsection \<open>Smoothing schedule\<close>

definition update_smoothing :: "env \<Rightarrow> env" where
  "update_smoothing s =
     (if smoothing_start_episode s \<le> episode_count s
         \<and> less_bound (episode_count s) (smoothing_stop_episode s)
      then s\<lparr>smoothing_alpha := fadd (smoothing_alpha s) (smoothing_increase_step s)\<rparr>
      else s)"

subsection \<open>Reset and step\<close>

definition reset :: "collab \<Rightarrow> env \<Rightarrow> error + real list \<times> env" where
  "reset c s =
     (let s1 = (case next_start_time s of
                  None \<Rightarrow> s
                | Some t \<Rightarrow>
                    s\<lparr>finger := finger s @
                         [SetAction (fst (observation c (finger s))) ''position'', StepRobot True],
                      next_start_time := Some (t + 4)\<rparr>);
          s2 = update_smoothing s1;
          s3 = s2\<lparr>episode_count := episode_count s2 + 1, smoothed_action := None\<rparr>;
          action = reset_finger c (finger s3);
          s4 = s3\<lparr>finger := finger s3 @ [ResetFinger]\<rparr>;
          target_joint_config = sample_random_joint_positions_for_reaching c (finger s4);
          s5 = s4\<lparr>finger := finger s4 @ [SampleJointPositions]\<rparr>;
          g = forward_kinematics c target_joint_config;
          s6 = s5\<lparr>goal := Some g, logger := logger s5 @ [NewEpisode target_joint_config g]\<rparr>;
          s7 = s6\<lparr>finger := finger s6 @ [ResetGoalMarkers g]\<rparr>
      in try_bind (get_observation c s7 action False) (\<lambda>(ob, s8).
         Inr (scale c (num_fingers s8) ob, s8)))"

fun control_loop ::
    "collab \<Rightarrow> nat \<Rightarrow> real list \<Rightarrow> env \<Rightarrow> real list option \<Rightarrow> error + real list option \<times> env" where
  "control_loop c 0 a s obs = Inr (obs, s)"
| "control_loop c (Suc n) a s obs =
     (let s1 = s\<lparr>finger := finger s @ [SetAction a ''position'']\<rparr>;
          s2 = s1\<lparr>finger := finger s1 @ [StepRobot (obs = None)]\<rparr>
      in if obs = None
         then try_bind (get_observation c s2 a True) (\<lambda>(ob, s3).
              control_loop c n a s3 (Some ob))
         else control_loop c n a s2 obs)"

record step_result =
  scaled_observation :: "real list"
  reward :: real
  done_signal :: bool
  is_success :: real

definition step :: "collab \<Rightarrow> env \<Rightarrow> real list \<Rightarrow> error + step_result \<times> env" where
  "step c s action =
     (let unscaled_action = unscale c (num_fingers s) action;
          previous = (case smoothed_action s of None \<Rightarrow> unscaled_action | Some a \<Rightarrow> a);
          smoothed = array_add (dtype c)
                       (scalar_mul (dtype c) (smoothing_alpha s) previous)
                       (scalar_mul (dtype c) (fsub 1 (smoothing_alpha s)) unscaled_action);
          s1 = s\<lparr>smoothed_action := Some smoothed\<rparr>
      in try_bind (control_loop c (nat (steps_per_control s1)) smoothed s1 None) (\<lambda>(obs, s2).
         case goal s2 of
           None \<Rightarrow> Inl (AttributeError ''goal'')
         | Some g \<Rightarrow>
             try_bind (compute_reward c s2 obs g) (\<lambda>(r, d).
             case obs of
               None \<Rightarrow> Inl TypeError
             | Some ob \<Rightarrow>
                 Inr (\<lparr>scaled_observation = scale c (num_fingers s2) ob, reward = r,
                       done_signal = d, is_success = (if d then 1 else 0)\<rparr>, s2))))"

definition render :: "env \<Rightarrow> env" where
  "render s = s\<lparr>finger := finger s @ [ConnectToSimulation True]\<rparr>"

subsection \<open>The constructor\<close>

definition before_reset :: "nat \<Rightarrow> args \<Rightarrow> error + env" where
  \<comment> \<open>\<open>__init__\<close> up to, and without, its final call of \<open>reset\<close>; \<open>now\<close> is the wall
      clock in seconds\<close>
  "before_reset now a =
     (let nf = (if finger_type a = ''single'' then 1 else 3) in
      try_bind (init_steps_per_control (control_rate_s a)) (\<lambda>steps.
      try_bind (init_smoothing (smoothing_params a)) (\<lambda>(start, alpha, increase, stop).
      try_bind (if synchronize a
                then (if (now div 60) mod 60 = 59 then Inl ValueError
                      else Inr (Some (60 * (now div 60 + 1))))
                else Inr None) (\<lambda>start_time.
      Inr \<lparr>num_fingers = nf,
           steps_per_control = steps,
           smoothing_start_episode = start,
           smoothing_alpha = alpha,
           smoothing_increase_step = increase,
           smoothing_stop_episode = stop,
           smoothed_action = None,
           episode_count = 0,
           velocity_cost_factor = velocity_cost a,
           finger = [Create (use_real_robot a) (enable_visualization a) (finger_type a)
                       (sampling_strategy a), DisplayGoal],
           logger = [],
           next_start_time = start_time,
           goal = None\<rparr>))))"

definition init :: "collab \<Rightarrow> nat \<Rightarrow> args \<Rightarrow> error + env" where
  "init c now a =
     try_bind (before_reset now a) (\<lambda>s0.
     try_bind (reset c s0) (\<lambda>(ob, s). Inr s))"

subsection \<open>Runs of the public interface\<close>

datatype call = Step "real list" | Reset

fun run :: "collab \<Rightarrow> env \<Rightarrow> call list \<Rightarrow> error + env" where
  "run c s [] = Inr s"
| "run c s (Reset # cs) = try_bind (reset c s) (\<lambda>(ob, s'). run c s' cs)"
| "run c s (Step a # cs) = try_bind (step c s a) (\<lambda>(r, s'). run c s' cs)"

subsection \<open>A concrete collaborator and concrete arguments\<close>

text \<open>
  The theorems below hold for every collaborator. For concrete runs there is a single
  finger that rests at one joint position, which is also the sampled target; its forward
  kinematics returns the joint position as the tip position, with identity scaling,
  binary64 arrays and the norm \<open>euclid_norm\<close>.
\<close>

definition still_finger :: collab where
  "still_finger = \<lparr>observation = (\<lambda>h. ([1 / 2, - 1 / 4, 1], [0, 0, 0])),
     forward_kinematics = (\<lambda>q. [q]),
     reset_finger = (\<lambda>h. [1 / 2, - 1 / 4, 1]),
     sample_random_joint_positions_for_reaching = (\<lambda>h. [1 / 2, - 1 / 4, 1]),
     unscale = (\<lambda>n a. a), scale = (\<lambda>n a. a), dtype = binary64,
     linalg_norm = euclid_norm\<rparr>"

definition ramp_params :: "real \<Rightarrow> real \<Rightarrow> real \<Rightarrow> real \<Rightarrow> string \<rightharpoonup> real" where
  "ramp_params num_episodes start_after stop_after final_alpha =
     [''num_episodes'' \<mapsto> num_episodes, ''start_after'' \<mapsto> start_after,
      ''stop_after'' \<mapsto> stop_after, ''final_alpha'' \<mapsto> final_alpha]"

definition test_params :: "real \<Rightarrow> string \<rightharpoonup> real" where
  "test_params final_alpha = [''is_test'' \<mapsto> 1, ''final_alpha'' \<mapsto> final_alpha]"

definition single_args :: "real \<Rightarrow> (string \<rightharpoonup> real) \<Rightarrow> args" where
  "single_args rate params = \<lparr>control_rate_s = rate, enable_visualization = False,
     finger_type = ''single'', smoothing_params = params,
     velocity_cost = 0, sampling_strategy = ''separated'', use_real_robot = False,
     finger_config_suffix = ''0'', synchronize = False\<rparr>"

section \<open>Properties of rounding\<close>

lemma binade_lower: assumes "x \<noteq> 0" shows "2 powi binade x \<le> \<bar>x\<bar>"
proof (cases "1 \<le> \<bar>x\<bar>")
  case True
  define n where "n = \<lfloor>\<bar>x\<bar>\<rfloor>"
  have n: "0 < n" using True by (simp add: n_def)
  have b: "1 \<le> bitlen n" using n bitlen_eq_zero_iff [of n] bitlen_nonneg [of n] by linarith
  have "(2::int) ^ nat (bitlen n - 1) \<le> n" using bitlen_bounds [OF n] by simp
  then have "real_of_int (2 ^ nat (bitlen n - 1)) \<le> real_of_int n" by (rule of_int_le_iff [THEN iffD2])
  also have "\<dots> \<le> \<bar>x\<bar>" by (simp add: n_def)
  finally have "2 ^ nat (bitlen n - 1) \<le> \<bar>x\<bar>" by simp
  moreover have "binade x = bitlen n - 1" using True by (simp add: binade_def n_def)
  ultimately show ?thesis using b by (simp add: power_int_def)
next
  case False
  define y where "y = 1 / \<bar>x\<bar>"
  define m where "m = \<lceil>y\<rceil> - 1"
  have x: "0 < \<bar>x\<bar>" "\<bar>x\<bar> < 1" using assms False by auto
  have y: "1 < y" using x by (simp add: y_def)
  have m: "0 < m" using y by (simp add: m_def; linarith)
  have b: "1 \<le> bitlen m" using m bitlen_eq_zero_iff [of m] bitlen_nonneg [of m] by linarith
  have "m < 2 ^ nat (bitlen m)" using bitlen_bounds [OF m] by simp
  then have "m + 1 \<le> 2 ^ nat (bitlen m)" by simp
  then have "real_of_int (m + 1) \<le> real_of_int (2 ^ nat (bitlen m))" by (rule of_int_le_iff [THEN iffD2])
  moreover have "y \<le> real_of_int (m + 1)" by (simp add: m_def)
  ultimately have "y \<le> 2 ^ nat (bitlen m)" by simp
  then have "1 / 2 ^ nat (bitlen m) \<le> \<bar>x\<bar>" using x by (simp add: y_def field_simps)
  moreover have "binade x = - bitlen m" using False by (simp add: binade_def m_def y_def)
  ultimately show ?thesis using b by (simp add: power_int_def field_simps)
qed

lemma binade_upper: assumes "x \<noteq> 0" shows "\<bar>x\<bar> < 2 powi (binade x + 1)"
proof (cases "1 \<le> \<bar>x\<bar>")
  case True
  define n where "n = \<lfloor>\<bar>x\<bar>\<rfloor>"
  have n: "0 < n" using True by (simp add: n_def)
  have b: "1 \<le> bitlen n" using n bitlen_eq_zero_iff [of n] bitlen_nonneg [of n] by linarith
  have "n < 2 ^ nat (bitlen n)" using bitlen_bounds [OF n] by simp
  then have "n + 1 \<le> 2 ^ nat (bitlen n)" by simp
  then have "real_of_int (n + 1) \<le> real_of_int (2 ^ nat (bitlen n))" by (rule of_int_le_iff [THEN iffD2])
  moreover have "\<bar>x\<bar> < real_of_int (n + 1)" by (simp add: n_def; linarith)
  ultimately have "\<bar>x\<bar> < 2 ^ nat (bitlen n)" by simp
  moreover have "binade x = bitlen n - 1" using True by (simp add: binade_def n_def)
  ultimately show ?thesis using b by (simp add: power_int_def)
next
  case False
  define y where "y = 1 / \<bar>x\<bar>"
  define m where "m = \<lceil>y\<rceil> - 1"
  have x: "0 < \<bar>x\<bar>" "\<bar>x\<bar> < 1" using assms False by auto
  have y: "1 < y" using x by (simp add: y_def)
  have m: "0 < m" using y by (simp add: m_def; linarith)
  have b: "1 \<le> bitlen m" using m bitlen_eq_zero_iff [of m] bitlen_nonneg [of m] by linarith
  have "(2::int) ^ nat (bitlen m - 1) \<le> m" using bitlen_bounds [OF m] by simp
  then have "real_of_int (2 ^ nat (bitlen m - 1)) \<le> real_of_int m" by (rule of_int_le_iff [THEN iffD2])
  then have "(2::real) ^ nat (bitlen m - 1) \<le> real_of_int m" by simp
  moreover have "real_of_int m < y" by (simp add: m_def; linarith)
  ultimately have "2 ^ nat (bitlen m - 1) < y" by linarith
  then have lt: "\<bar>x\<bar> < 1 / 2 ^ nat (bitlen m - 1)" using x by (simp add: y_def field_simps)
  have be: "binade x + 1 = - (bitlen m - 1)" using False by (simp add: binade_def m_def y_def)
  show ?thesis
  proof (cases "bitlen m = 1")
    case True
    then show ?thesis using lt be by simp
  next
    case F: False
    then have "bitlen m - 1 > 0" using b by simp
    then show ?thesis using lt unfolding be by (simp add: power_int_def field_simps)
  qed
qed

lemma binade_unique:
  assumes "2 powi k \<le> \<bar>x\<bar>" and "\<bar>x\<bar> < 2 powi (k + 1)"
  shows "binade x = k"
proof -
  have nz: "x \<noteq> 0"
  proof
    assume "x = 0"
    with assms(1) have "(2::real) powi k \<le> 0" by simp
    moreover have "0 < (2::real) powi k" by (rule zero_less_power_int) simp
    ultimately show False by linarith
  qed
  have "2 powi k < (2::real) powi (binade x + 1)"
    using assms(1) binade_upper [OF nz] by linarith
  then have "k < binade x + 1"
    by (metis not_less power_int_increasing one_le_numeral)
  moreover have "2 powi binade x < (2::real) powi (k + 1)"
    using assms(2) binade_lower [OF nz] by linarith
  then have "binade x < k + 1"
    by (metis not_less power_int_increasing one_le_numeral)
  ultimately show ?thesis by simp
qed

lemma binade_mono:
  assumes "x \<noteq> 0" and "\<bar>x\<bar> \<le> \<bar>y\<bar>"
  shows "binade x \<le> binade y"
proof -
  have ny: "y \<noteq> 0" using assms by auto
  have "2 powi binade x < (2::real) powi (binade y + 1)"
    using binade_lower [OF assms(1)] binade_upper [OF ny] assms(2) by linarith
  then have "binade x < binade y + 1"
    by (metis not_less power_int_increasing one_le_numeral)
  then show ?thesis by simp
qed

lemma binade_uminus: "binade (- x) = binade x"
  by (simp add: binade_def)

lemma py_round_of_int: "py_round (of_int n) = n"
  by (simp add: py_round_def)

lemma py_round_cases: "py_round x = \<lfloor>x\<rfloor> \<or> py_round x = \<lfloor>x\<rfloor> + 1"
  by (simp add: py_round_def Let_def)

lemma py_round_mono:
  assumes "x \<le> y"
  shows "py_round x \<le> py_round y"
proof (cases "\<lfloor>x\<rfloor> = \<lfloor>y\<rfloor>")
  case True
  have "x - of_int \<lfloor>x\<rfloor> \<le> y - of_int \<lfloor>y\<rfloor>" using assms True by simp
  then show ?thesis using True by (auto simp: py_round_def Let_def)
next
  case False
  have "\<lfloor>x\<rfloor> \<le> \<lfloor>y\<rfloor>" using assms by (rule floor_mono)
  with False have "\<lfloor>x\<rfloor> + 1 \<le> \<lfloor>y\<rfloor>" by simp
  then show ?thesis using py_round_cases [of x] py_round_cases [of y] by linarith
qed

lemma py_round_nonneg: "0 \<le> x \<Longrightarrow> 0 \<le> py_round x"
  using py_round_mono [of 0 x] py_round_of_int [of 0] by simp

lemma expo_uminus: "expo fmt (- x) = expo fmt x"
  by (simp add: expo_def binade_uminus)

lemma round_to_uminus: "round_to fmt (- x) = - round_to fmt x"
  by (simp add: round_to_def expo_uminus sgn_minus)

lemma round_to_pos:
  "0 < x \<Longrightarrow> round_to fmt x = of_int (py_round (x / 2 powi expo fmt x)) * 2 powi expo fmt x"
  by (simp add: round_to_def)

lemma round_to_nonneg: assumes "0 \<le> x" shows "0 \<le> round_to fmt x"
proof (cases "x = 0")
  case True then show ?thesis by (simp add: round_to_def)
next
  case False
  then have x: "0 < x" using assms by simp
  have "0 \<le> x / 2 powi expo fmt x" using x by simp
  then have "0 \<le> py_round (x / 2 powi expo fmt x)" by (rule py_round_nonneg)
  then show ?thesis using x by (simp add: round_to_pos)
qed

lemma scaled_upper:
  assumes "0 < x"
  shows "x / 2 powi expo fmt x < 2 ^ precision fmt"
proof -
  have "binade x + 1 \<le> expo fmt x + int (precision fmt)" by (simp add: expo_def)
  then have "(2::real) powi (binade x + 1) \<le> 2 powi (expo fmt x + int (precision fmt))"
    by (rule power_int_increasing) simp
  moreover have "x < 2 powi (binade x + 1)" using binade_upper [of x] assms by simp
  ultimately have "x < 2 powi (expo fmt x + int (precision fmt))" by linarith
  also have "\<dots> = 2 powi expo fmt x * 2 ^ precision fmt"
    by (simp add: power_int_add)
  finally show ?thesis by (simp add: field_simps)
qed

lemma mant_upper:
  assumes "0 < x"
  shows "py_round (x / 2 powi expo fmt x) \<le> 2 ^ precision fmt"
proof -
  have "py_round (x / 2 powi expo fmt x) \<le> py_round (of_int (2 ^ precision fmt))"
    using scaled_upper [OF assms, of fmt] by (intro py_round_mono) simp
  then show ?thesis by (simp only: py_round_of_int)
qed

lemma mant_lower:
  assumes "0 < x" and "emin fmt < expo fmt x" and "0 < precision fmt"
  shows "2 ^ (precision fmt - 1) \<le> py_round (x / 2 powi expo fmt x)"
proof -
  have e: "expo fmt x = binade x - (int (precision fmt) - 1)"
    using assms(2) by (simp add: expo_def max_def split: if_splits)
  have "binade x = expo fmt x + int (precision fmt - 1)" using e assms(3) by (simp add: of_nat_diff)
  then have "(2::real) powi binade x = 2 powi expo fmt x * 2 ^ (precision fmt - 1)"
    by (simp add: power_int_add)
  moreover have "2 powi binade x \<le> x" using binade_lower [of x] assms(1) by simp
  ultimately have "2 ^ (precision fmt - 1) \<le> x / 2 powi expo fmt x"
    by (simp add: field_simps)
  then have "py_round (of_int (2 ^ (precision fmt - 1))) \<le> py_round (x / 2 powi expo fmt x)"
    by (intro py_round_mono) simp
  then show ?thesis by (simp only: py_round_of_int)
qed

lemma expo_mono: "0 < x \<Longrightarrow> x \<le> y \<Longrightarrow> expo fmt x \<le> expo fmt y"
  using binade_mono [of x y] by (simp add: expo_def max_def)

lemma round_to_mono_pos:
  assumes "0 < x" and "x \<le> y" and "0 < precision fmt"
  shows "round_to fmt x \<le> round_to fmt y"
proof -
  have y: "0 < y" using assms by simp
  let ?ex = "expo fmt x" and ?ey = "expo fmt y"
  let ?p = "precision fmt"
  show ?thesis
  proof (cases "?ex = ?ey")
    case True
    have "x / 2 powi ?ey \<le> y / 2 powi ?ey" using assms(2) by (simp add: divide_right_mono)
    then have "py_round (x / 2 powi ?ey) \<le> py_round (y / 2 powi ?ey)" by (rule py_round_mono)
    then have "real_of_int (py_round (x / 2 powi ?ey)) * 2 powi ?ey
        \<le> real_of_int (py_round (y / 2 powi ?ey)) * 2 powi ?ey"
      by (intro mult_right_mono) simp_all
    then show ?thesis using True assms(1) y by (simp add: round_to_pos)
  next
    case False
    then have lt: "?ex < ?ey" using expo_mono [OF assms(1,2), of fmt] by simp
    have "emin fmt \<le> ?ex" by (simp add: expo_def)
    with lt have em: "emin fmt < ?ey" by simp
    have "real_of_int (py_round (x / 2 powi ?ex)) \<le> real_of_int (2 ^ ?p)"
      using mant_upper [OF assms(1), of fmt] by (rule of_int_le_iff [THEN iffD2])
    then have "real_of_int (py_round (x / 2 powi ?ex)) * 2 powi ?ex \<le> 2 ^ ?p * 2 powi ?ex"
      by (intro mult_right_mono) simp_all
    also have "\<dots> = 2 powi (?ex + int ?p)" by (simp add: power_int_add)
    also have "\<dots> \<le> 2 powi (?ey + int (?p - 1))"
      using lt assms(3) by (intro power_int_increasing) (simp_all add: of_nat_diff)
    also have "\<dots> = 2 ^ (?p - 1) * 2 powi ?ey" by (simp add: power_int_add)
    also have "\<dots> \<le> real_of_int (py_round (y / 2 powi ?ey)) * 2 powi ?ey"
    proof -
      have "real_of_int (2 ^ (?p - 1)) \<le> real_of_int (py_round (y / 2 powi ?ey))"
        using mant_lower [OF y em assms(3)] by (rule of_int_le_iff [THEN iffD2])
      then show ?thesis by (intro mult_right_mono) simp_all
    qed
    finally show ?thesis using assms(1) y by (simp add: round_to_pos)
  qed
qed

lemma round_to_mono:
  assumes "x \<le> y" and "0 < precision fmt"
  shows "round_to fmt x \<le> round_to fmt y"
proof -
  consider "0 < x" | "x \<le> 0" "0 \<le> y" | "y < 0" by linarith
  then show ?thesis
  proof cases
    case 1
    then show ?thesis using assms by (simp add: round_to_mono_pos)
  next
    case 2
    have "0 \<le> round_to fmt (- x)" using 2 by (intro round_to_nonneg) simp
    then have "round_to fmt x \<le> 0" by (simp add: round_to_uminus)
    moreover have "0 \<le> round_to fmt y" using 2 by (intro round_to_nonneg)
    ultimately show ?thesis by linarith
  next
    case 3
    have "round_to fmt (- y) \<le> round_to fmt (- x)"
      using 3 assms by (intro round_to_mono_pos) simp_all
    then show ?thesis by (simp add: round_to_uminus)
  qed
qed

lemma round_to_idem_pos:
  assumes x: "0 < x" and p: "0 < precision fmt"
  shows "round_to fmt (round_to fmt x) = round_to fmt x"
proof -
  define e where "e = expo fmt x"
  define m where "m = py_round (x / 2 powi e)"
  define y where "y = real_of_int m * 2 powi e"
  have y_eq: "round_to fmt x = y" using x by (simp add: round_to_pos y_def m_def e_def)
  have m0: "0 \<le> m" unfolding m_def using x by (intro py_round_nonneg) simp
  have mu: "m \<le> 2 ^ precision fmt" unfolding m_def e_def using x by (rule mant_upper)
  have ee: "emin fmt \<le> e" by (simp add: e_def expo_def)
  show ?thesis
  proof (cases "m = 0")
    case True
    then have "y = 0" by (simp add: y_def)
    then show ?thesis unfolding y_eq by (simp add: round_to_def)
  next
    case False
    then have m: "0 < m" using m0 by simp
    then have ypos: "0 < y" by (simp add: y_def)
    define k where "k = bitlen m - 1"
    have k0: "0 \<le> k" using m bitlen_eq_zero_iff [of m] bitlen_nonneg [of m] unfolding k_def by linarith
    have bl: "(2::int) ^ nat k \<le> m" "m < 2 ^ nat (k + 1)"
      using bitlen_bounds [OF m] by (simp_all add: k_def)
    have pk: "(2::real) powi k = 2 ^ nat k" using k0 by (simp add: power_int_def)
    have pk1: "(2::real) powi (k + 1) = 2 ^ nat (k + 1)" using k0 by (simp add: power_int_def)
    have s1: "(2::real) powi (e + k) = 2 ^ nat k * 2 powi e"
      by (simp add: power_int_add pk)
    have "e + k + 1 = e + (k + 1)" by simp
    then have "(2::real) powi (e + k + 1) = 2 powi e * 2 powi (k + 1)"
      by (simp only: power_int_add [of "2::real" e "k + 1", simplified])
    then have s2: "(2::real) powi (e + k + 1) = 2 ^ nat (k + 1) * 2 powi e"
      by (simp only: pk1 mult.commute)
    have "real_of_int (2 ^ nat k) \<le> real_of_int m" using bl(1) by (rule of_int_le_iff [THEN iffD2])
    then have "real_of_int (2 ^ nat k) * 2 powi e \<le> real_of_int m * 2 powi e"
      by (intro mult_right_mono) simp_all
    then have lo: "2 powi (e + k) \<le> \<bar>y\<bar>"
      using ypos unfolding s1 by (simp add: y_def)
    have "real_of_int m < real_of_int (2 ^ nat (k + 1))" using bl(2) by (rule of_int_less_iff [THEN iffD2])
    then have "real_of_int m * 2 powi e < real_of_int (2 ^ nat (k + 1)) * 2 powi e"
      by (intro mult_strict_right_mono) simp_all
    then have hi: "\<bar>y\<bar> < 2 powi (e + k + 1)"
      using ypos unfolding s2 by (simp add: y_def)
    have bin_y: "binade y = e + k" using lo hi by (rule binade_unique)
    define e' where "e' = expo fmt y"
    have e': "e' = max (e + k - (int (precision fmt) - 1)) (emin fmt)"
      by (simp add: e'_def expo_def bin_y)
    have ry: "round_to fmt y = real_of_int (py_round (y / 2 powi e')) * 2 powi e'"
      using ypos by (simp add: round_to_pos e'_def)
    show ?thesis
    proof (cases "e' \<le> e")
      case True
      have pe: "(2::real) powi (e - e') = 2 ^ nat (e - e')" using True by (simp add: power_int_def)
      have "y / 2 powi e' = real_of_int m * 2 powi (e - e')"
        by (simp add: y_def power_int_diff)
      also have "\<dots> = real_of_int (m * 2 ^ nat (e - e'))"
        by (simp add: pe)
      finally have "py_round (y / 2 powi e') = m * 2 ^ nat (e - e')"
        by (simp only: py_round_of_int)
      then have "round_to fmt y = real_of_int (m * 2 ^ nat (e - e')) * 2 powi e'"
        by (simp only: ry)
      also have "\<dots> = real_of_int m * (2 powi (e - e') * 2 powi e')"
        by (simp add: pe)
      also have "\<dots> = y" by (simp add: y_def flip: power_int_add)
      finally show ?thesis by (simp add: y_eq)
    next
      case F: False
      then have "int (precision fmt) \<le> k" using e' ee by (simp add: max_def split: if_splits)
      moreover have "k \<le> int (precision fmt)"
      proof (rule ccontr)
        assume "\<not> k \<le> int (precision fmt)"
        then have "precision fmt + 1 \<le> nat k" by simp
        then have "(2::int) ^ (precision fmt + 1) \<le> 2 ^ nat k" by (intro power_increasing) simp_all
        then have "2 * (2::int) ^ precision fmt \<le> 2 ^ nat k" by simp
        moreover have "(0::int) < 2 ^ precision fmt" by simp
        ultimately show False using bl(1) mu by linarith
      qed
      ultimately have kp: "k = int (precision fmt)" by simp
      have "(2::int) ^ precision fmt \<le> m" using bl(1) kp by simp
      with mu have mp: "m = 2 ^ precision fmt" by simp
      have e1: "e' = e + 1" using e' ee kp by (simp add: max_def)
      obtain q where q: "precision fmt = Suc q" using p by (cases "precision fmt") simp_all
      have "y / 2 powi e' = real_of_int (2 ^ q)"
        by (simp add: y_def e1 mp q power_int_add)
      then have "py_round (y / 2 powi e') = 2 ^ q" by (simp only: py_round_of_int)
      then have "round_to fmt y = 2 ^ q * 2 powi (e + 1)" by (simp add: ry e1)
      also have "\<dots> = y" by (simp add: y_def mp q power_int_add)
      finally show ?thesis by (simp add: y_eq)
    qed
  qed
qed

lemma round_to_idem:
  assumes "0 < precision fmt"
  shows "round_to fmt (round_to fmt x) = round_to fmt x"
proof -
  consider "0 < x" | "x = 0" | "x < 0" by linarith
  then show ?thesis
  proof cases
    case 1 then show ?thesis using assms by (rule round_to_idem_pos)
  next
    case 2 then show ?thesis by (simp add: round_to_def)
  next
    case 3
    then have "round_to fmt (round_to fmt (- x)) = round_to fmt (- x)"
      using assms by (intro round_to_idem_pos) simp_all
    then show ?thesis by (simp add: round_to_uminus)
  qed
qed

section \<open>Properties of the environment\<close>

subsection \<open>Auxiliary facts\<close>

lemma try_bind_simps [simp]:
  "try_bind (Inl e) f = Inl e" "try_bind (Inr v) f = f v"
  by (simp_all add: try_bind_def)

lemma try_bind_eq_Inr: "try_bind r f = Inr y \<longleftrightarrow> (\<exists>v. r = Inr v \<and> f v = Inr y)"
  by (cases r) simp_all

lemma try_bind_eq_Inl: "try_bind r f = Inl e \<longleftrightarrow> r = Inl e \<or> (\<exists>v. r = Inr v \<and> f v = Inl e)"
  by (cases r) simp_all

lemma get_observation_goal:
  "goal s = Some g \<Longrightarrow> \<exists>ob. get_observation c s a lg = Inr (ob,
      if lg then s\<lparr>logger := logger s @ [Append (fst (observation c (finger s)))
            (concat (forward_kinematics c (fst (observation c (finger s)))))]\<rparr> else s)"
  by (simp add: get_observation_def Let_def)

lemma update_smoothing_fields [simp]:
  "num_fingers (update_smoothing s) = num_fingers s"
  "steps_per_control (update_smoothing s) = steps_per_control s"
  "smoothing_start_episode (update_smoothing s) = smoothing_start_episode s"
  "smoothing_increase_step (update_smoothing s) = smoothing_increase_step s"
  "smoothing_stop_episode (update_smoothing s) = smoothing_stop_episode s"
  "smoothed_action (update_smoothing s) = smoothed_action s"
  "episode_count (update_smoothing s) = episode_count s"
  "velocity_cost_factor (update_smoothing s) = velocity_cost_factor s"
  "finger (update_smoothing s) = finger s"
  "logger (update_smoothing s) = logger s"
  "next_start_time (update_smoothing s) = next_start_time s"
  "goal (update_smoothing s) = goal s"
  by (simp_all add: update_smoothing_def)

lemma reset_total: "\<exists>ob s'. reset c s = Inr (ob, s')"
  unfolding reset_def Let_def
  by (simp add: get_observation_def Let_def split: option.split)

lemma reset_fields:
  assumes "reset c s = Inr (ob, s')"
  shows "num_fingers s' = num_fingers s"
    and "steps_per_control s' = steps_per_control s"
    and "smoothing_start_episode s' = smoothing_start_episode s"
    and "smoothing_increase_step s' = smoothing_increase_step s"
    and "smoothing_stop_episode s' = smoothing_stop_episode s"
    and "smoothing_alpha s' = smoothing_alpha (update_smoothing s)"
    and "episode_count s' = episode_count s + 1"
    and "velocity_cost_factor s' = velocity_cost_factor s"
    and "smoothed_action s' = None"
    and "goal s' \<noteq> None"
  using assms unfolding reset_def Let_def
  by (auto simp: get_observation_def Let_def update_smoothing_def split: option.splits if_splits)

lemma getitem_Some [simp]: "d k = Some v \<Longrightarrow> getitem d k = Inr v"
  by (simp add: getitem_def)

lemma init_smoothing_test:
  assumes "p ''is_test'' \<noteq> None" and "p ''final_alpha'' = Some fa"
  shows "init_smoothing p = Inr (0, fa, 0, Infinity)"
  using assms by (simp add: init_smoothing_def)

lemma init_smoothing_ramp:
  assumes "p ''is_test'' = None" and "p ''num_episodes'' = Some ne"
    and "p ''start_after'' = Some sta" and "p ''stop_after'' = Some sto"
    and "p ''final_alpha'' = Some fa"
  shows "init_smoothing p =
    (if py_int (fmul ne sto) = py_int (fmul ne sta) then Inl ZeroDivisionError
     else Inr (py_int (fmul ne sta), 0,
               fl64 (fa / py_float (py_int (fmul ne sto) - py_int (fmul ne sta))),
               Fin (py_int (fmul ne sto))))"
  using assms by (simp add: init_smoothing_def fdiv_int_def Let_def)

lemma ramp_params_simps [simp]:
  "ramp_params ne sta sto fa ''is_test'' = None"
  "ramp_params ne sta sto fa ''num_episodes'' = Some ne"
  "ramp_params ne sta sto fa ''start_after'' = Some sta"
  "ramp_params ne sta sto fa ''stop_after'' = Some sto"
  "ramp_params ne sta sto fa ''final_alpha'' = Some fa"
  by (simp_all add: ramp_params_def)

lemma test_params_simps [simp]:
  "test_params fa ''is_test'' = Some 1"
  "test_params fa ''final_alpha'' = Some fa"
  by (simp_all add: test_params_def)

lemma single_args_simps [simp]:
  "control_rate_s (single_args rate p) = rate"
  "finger_type (single_args rate p) = ''single''"
  "smoothing_params (single_args rate p) = p"
  "velocity_cost (single_args rate p) = 0"
  "synchronize (single_args rate p) = False"
  by (simp_all add: single_args_def)

lemma init_Inl: "before_reset now a = Inl e \<Longrightarrow> init c now a = Inl e"
  by (simp add: init_def)

lemma init_Inr_iff:
  "init c now a = Inr s \<longleftrightarrow> (\<exists>s0 ob. before_reset now a = Inr s0 \<and> reset c s0 = Inr (ob, s))"
  by (auto simp: init_def try_bind_eq_Inr)

lemma init_Inl_iff: "init c now a = Inl e \<longleftrightarrow> before_reset now a = Inl e"
proof (cases "before_reset now a")
  case (Inl e')
  then show ?thesis by (simp add: init_def)
next
  case (Inr s0)
  obtain ob s where "reset c s0 = Inr (ob, s)" using reset_total by blast
  with Inr show ?thesis by (simp add: init_def)
qed

lemma before_reset_steps_Inl:
  "init_steps_per_control (control_rate_s a) = Inl e \<Longrightarrow> before_reset now a = Inl e"
  by (simp add: before_reset_def)

lemma before_reset_smoothing_Inl:
  "init_steps_per_control (control_rate_s a) = Inr n \<Longrightarrow>
   init_smoothing (smoothing_params a) = Inl e \<Longrightarrow> before_reset now a = Inl e"
  by (simp add: before_reset_def)

lemma before_reset_Inr:
  assumes "before_reset now a = Inr s0"
  shows "\<exists>n start alpha inc stop.
           init_steps_per_control (control_rate_s a) = Inr n \<and>
           init_smoothing (smoothing_params a) = Inr (start, alpha, inc, stop) \<and>
           num_fingers s0 = (if finger_type a = ''single'' then 1 else 3) \<and>
           steps_per_control s0 = n \<and> smoothing_start_episode s0 = start \<and>
           smoothing_alpha s0 = alpha \<and> smoothing_increase_step s0 = inc \<and>
           smoothing_stop_episode s0 = stop \<and> smoothed_action s0 = None \<and>
           episode_count s0 = 0 \<and> velocity_cost_factor s0 = velocity_cost a \<and>
           goal s0 = None"
  using assms unfolding before_reset_def Let_def
  by (auto simp: try_bind_eq_Inr split: if_splits)

lemma before_reset_ok:
  assumes "init_steps_per_control (control_rate_s a) = Inr n"
    and "init_smoothing (smoothing_params a) = Inr sm"
    and "\<not> synchronize a"
  shows "\<exists>s0. before_reset now a = Inr s0"
  using assms unfolding before_reset_def Let_def by (cases sm) simp

lemma bitlen_numeral: "bitlen (numeral n) = bitlen (numeral n div 2) + 1"
  by (subst compute_bitlen) simp

lemma bitlen_one: "bitlen 1 = 1"
  by (subst compute_bitlen) simp

lemmas fl_eval = fl64_def round_to_def expo_def binade_def binary64_def py_round_def Let_def
  bitlen_numeral bitlen_one fmul_def fsub_def fadd_def py_float_def simulation_rate_s_def
  py_int_def

lemma steps_004: "init_steps_per_control (fl64 (4 / 1000)) = Inr 1"
  by (simp add: init_steps_per_control_def Let_def) (simp add: fl_eval)

lemma steps_02: "init_steps_per_control (fl64 (2 / 100)) = Inr 5"
  by (simp add: init_steps_per_control_def Let_def) (simp add: fl_eval)

lemma steps_01: "init_steps_per_control (fl64 (1 / 100)) = Inl AssertionError"
  by (simp add: init_steps_per_control_def Let_def) (simp add: fl_eval)

lemma steps_0: "init_steps_per_control 0 = Inr 0"
  by (simp add: init_steps_per_control_def Let_def) (simp add: fl_eval)

lemma init_steps_per_control_Inr:
  "init_steps_per_control rate = Inr n \<Longrightarrow> n = py_round (fl64 (rate / simulation_rate_s))"
  by (auto simp: init_steps_per_control_def Let_def split: if_splits)

lemma init_ok:
  assumes "init_steps_per_control (control_rate_s a) = Inr n"
    and "init_smoothing (smoothing_params a) = Inr sm"
    and "\<not> synchronize a"
  shows "\<exists>s. init c now a = Inr s"
proof -
  obtain s0 where "before_reset now a = Inr s0" using before_reset_ok [OF assms] by blast
  moreover obtain ob s where "reset c s0 = Inr (ob, s)" using reset_total by blast
  ultimately show ?thesis by (auto simp: init_Inr_iff)
qed

lemma fl64_0 [simp]: "fl64 0 = 0"
  by (simp add: fl64_def round_to_def)

lemma fmul_0 [simp]: "fmul 0 x = 0" "fmul x 0 = 0"
  by (simp_all add: fmul_def)

lemma py_int_0 [simp]: "py_int 0 = 0"
  by (simp add: py_int_def)

lemma before_reset_ramp:
  assumes "smoothing_params a ''is_test'' = None"
    and "smoothing_params a ''num_episodes'' = Some ne"
    and "smoothing_params a ''start_after'' = Some sta"
    and "smoothing_params a ''stop_after'' = Some sto"
    and "smoothing_params a ''final_alpha'' = Some fa"
    and "init_steps_per_control (control_rate_s a) = Inr n"
  shows "py_int (fmul ne sto) = py_int (fmul ne sta) \<Longrightarrow> before_reset now a = Inl ZeroDivisionError"
    and "py_int (fmul ne sto) \<noteq> py_int (fmul ne sta) \<Longrightarrow>
         synchronize a \<longrightarrow> (now div 60) mod 60 \<noteq> 59 \<Longrightarrow> \<exists>s0. before_reset now a = Inr s0"
  using assms(6) init_smoothing_ramp [OF assms(1-5)]
  by (simp_all add: before_reset_def)

lemma before_reset_finger_type:
  "before_reset now (a\<lparr>finger_type := ft\<rparr>) = Inl e \<longleftrightarrow> before_reset now a = Inl e"
  unfolding before_reset_def Let_def
  by (cases "init_steps_per_control (control_rate_s a)";
      cases "init_smoothing (smoothing_params a)"; auto)

subsection \<open>C9: division by zero in the constructor\<close>

text \<open>
  Claim C9. In non-test mode the constructor divides \<open>final_alpha\<close> by
  \<open>int(num_episodes * stop_after) - int(num_episodes * start_after)\<close>. Whenever the two
  truncated thresholds coincide, construction raises ZeroDivisionError; this happens
  also for configurations with \<open>0 \<le> start_after < stop_after \<le> 1\<close> and
  \<open>num_episodes > 0\<close>, for example 10 episodes with \<open>start_after = 0.51\<close> and
  \<open>stop_after = 0.55\<close>, whose thresholds are both 5.
\<close>

theorem init_zero_division:
  assumes "smoothing_params a ''is_test'' = None"
    and "smoothing_params a ''num_episodes'' = Some num_episodes"
    and "smoothing_params a ''start_after'' = Some start_after"
    and "smoothing_params a ''stop_after'' = Some stop_after"
    and "smoothing_params a ''final_alpha'' = Some final_alpha"
    and "init_steps_per_control (control_rate_s a) = Inr n"
    and "py_int (fmul num_episodes stop_after) = py_int (fmul num_episodes start_after)"
  shows "init c now a = Inl ZeroDivisionError
     \<and> (0 \<le> fl64 (51 / 100) \<and> fl64 (51 / 100) < fl64 (55 / 100) \<and> fl64 (55 / 100) \<le> 1
        \<and> py_int (fmul 10 (fl64 (55 / 100))) = py_int (fmul 10 (fl64 (51 / 100))))"
proof
  show "init c now a = Inl ZeroDivisionError"
    using before_reset_ramp(1) [OF assms] by (rule init_Inl)
  show "0 \<le> fl64 (51 / 100) \<and> fl64 (51 / 100) < fl64 (55 / 100) \<and> fl64 (55 / 100) \<le> 1
        \<and> py_int (fmul 10 (fl64 (55 / 100))) = py_int (fmul 10 (fl64 (51 / 100)))"
    by (simp add: fl_eval)
qed

theorem init_zero_division_witness:
  "init still_finger 0
     (single_args (fl64 (2 / 100)) (ramp_params 10 (fl64 (51 / 100)) (fl64 (55 / 100)) (fl64 (9 / 10))))
   = Inl ZeroDivisionError"
proof -
  have "py_int (fmul 10 (fl64 (55 / 100))) = py_int (fmul 10 (fl64 (51 / 100)))"
    by (simp add: fl_eval)
  then show ?thesis
    using init_zero_division [of "single_args (fl64 (2 / 100))
        (ramp_params 10 (fl64 (51 / 100)) (fl64 (55 / 100)) (fl64 (9 / 10)))"
        10 "fl64 (51 / 100)" "fl64 (55 / 100)" "fl64 (9 / 10)" 5 still_finger 0] steps_02
    by simp
qed

subsection \<open>C10: the finger type is not validated\<close>

text \<open>
  Claim C10. Every \<open>finger_type\<close> other than the string \<open>single\<close> gives three
  fingers, and the constructor rejects no value of \<open>finger_type\<close>: whether, and with
  which error, construction fails does not depend on it.
\<close>

theorem finger_type_not_validated:
  "(init c now a = Inr s \<longrightarrow> num_fingers s = (if finger_type a = ''single'' then 1 else 3))
   \<and> (init c now (a\<lparr>finger_type := ft\<rparr>) = Inl e \<longleftrightarrow> init c now a = Inl e)"
proof
  show "init c now a = Inr s \<longrightarrow> num_fingers s = (if finger_type a = ''single'' then 1 else 3)"
  proof
    assume "init c now a = Inr s"
    then obtain s0 ob where s0: "before_reset now a = Inr s0" and r: "reset c s0 = Inr (ob, s)"
      by (auto simp: init_Inr_iff)
    from before_reset_Inr [OF s0]
    have "num_fingers s0 = (if finger_type a = ''single'' then 1 else 3)" by blast
    then show "num_fingers s = (if finger_type a = ''single'' then 1 else 3)"
      using reset_fields(1) [OF r] by simp
  qed
  show "init c now (a\<lparr>finger_type := ft\<rparr>) = Inl e \<longleftrightarrow> init c now a = Inl e"
    by (simp only: init_Inl_iff before_reset_finger_type)
qed

theorem finger_type_not_validated_witness:
  "\<exists>s. init still_finger 0
          ((single_args (fl64 (2 / 100)) (test_params (fl64 (9 / 10))))\<lparr>finger_type := ''quad''\<rparr>)
        = Inr s \<and> num_fingers s = 3"
proof -
  let ?a = "(single_args (fl64 (2 / 100)) (test_params (fl64 (9 / 10))))\<lparr>finger_type := ''quad''\<rparr>"
  have "init_smoothing (test_params (fl64 (9 / 10))) = Inr (0, fl64 (9 / 10), 0, Infinity)"
    by (rule init_smoothing_test) simp_all
  then obtain s where s: "init still_finger 0 ?a = Inr s"
    using init_ok [of ?a 5 _ still_finger 0] steps_02 by (auto simp: single_args_def)
  then have "num_fingers s = 3"
    using finger_type_not_validated [of still_finger 0 ?a s] by (simp add: single_args_def)
  with s show ?thesis by blast
qed

subsection \<open>C6: invalid smoothing schedules\<close>


subsection \<open>The control loop, the reward and one step\<close>

lemma get_observation_Some:
  "goal s = Some g \<Longrightarrow>
   get_observation c s a lg =
     Inr (fst (observation c (finger s)) @ snd (observation c (finger s)) @ concat g @ a,
          if lg then s\<lparr>logger := logger s @ [Append (fst (observation c (finger s)))
              (concat (forward_kinematics c (fst (observation c (finger s)))))]\<rparr> else s)"
  by (simp add: get_observation_def Let_def observations_keys_def)

lemma get_observation_None:
  "goal s = None \<Longrightarrow> get_observation c s a lg = Inl (AttributeError ''goal'')"
  by (simp add: get_observation_def Let_def)

lemma control_loop_rest:
  "control_loop c n a s (Some ob) =
     Inr (Some ob, s\<lparr>finger := finger s @
            concat (replicate n [SetAction a ''position'', StepRobot False])\<rparr>)"
proof (induction n arbitrary: s)
  case 0
  show ?case by simp
next
  case (Suc n)
  show ?case by (simp add: Suc.IH Let_def)
qed

lemma control_loop_first:
  assumes "goal s = Some g"
  shows "control_loop c (Suc n) a s None =
     Inr (Some (fst (observation c (finger s @ [SetAction a ''position'', StepRobot True]))
                @ snd (observation c (finger s @ [SetAction a ''position'', StepRobot True]))
                @ concat g @ a),
          s\<lparr>finger := finger s @ [SetAction a ''position'', StepRobot True] @
                 concat (replicate n [SetAction a ''position'', StepRobot False]),
            logger := logger s @
              [Append (fst (observation c (finger s @ [SetAction a ''position'', StepRobot True])))
                 (concat (forward_kinematics c
                    (fst (observation c (finger s @ [SetAction a ''position'', StepRobot True])))))]\<rparr>)"
  using assms by (simp add: Let_def get_observation_Some control_loop_rest)

lemma control_loop_no_goal:
  "goal s = None \<Longrightarrow> control_loop c (Suc n) a s None = Inl (AttributeError ''goal'')"
  by (simp add: Let_def get_observation_None)

lemma key_to_index_simps:
  "key_to_index nf ''joint_positions'' = Some (0, 3 * nf)"
  "key_to_index nf ''joint_velocities'' = Some (3 * nf, 3 * nf + 3 * nf)"
  by (simp_all add: key_to_index_def observations_keys_def observations_sizes_def)

lemma compute_reward_Some:
  "compute_reward c s (Some ob) g =
     Inr (fmul (fsub (- compute_distance c (forward_kinematics c (take (3 * num_fingers s) ob)) g)
                     (fmul (velocity_cost_factor s)
                        (linalg_norm c (take (3 * num_fingers s) (drop (3 * num_fingers s) ob)))))
               (py_float (steps_per_control s)), False)"
  by (simp add: compute_reward_def key_to_index_simps slice_def Let_def)

lemma compute_reward_None: "compute_reward c s None g = Inl TypeError"
  by (simp add: compute_reward_def)

declare control_loop.simps [simp del]

lemma step_no_goal:
  assumes "goal s = None"
  shows "step c s action = Inl (AttributeError ''goal'')"
proof (cases "nat (steps_per_control s)")
  case 0
  then show ?thesis using assms by (simp add: step_def Let_def control_loop.simps)
next
  case (Suc n)
  then show ?thesis using assms by (simp add: step_def Let_def control_loop_no_goal)
qed

lemma step_zero:
  assumes "goal s = Some g" and "steps_per_control s \<le> 0"
  shows "step c s action = Inl TypeError"
  using assms by (simp add: step_def Let_def compute_reward_None control_loop.simps)

lemma step_Suc:
  assumes "goal s = Some g" and "nat (steps_per_control s) = Suc n"
    and "u = unscale c (num_fingers s) action"
    and "cmd = array_add (dtype c)
                 (scalar_mul (dtype c) (smoothing_alpha s)
                    (case smoothed_action s of None \<Rightarrow> u | Some p \<Rightarrow> p))
                 (scalar_mul (dtype c) (fsub 1 (smoothing_alpha s)) u)"
    and "h = finger s @ [SetAction cmd ''position'', StepRobot True]"
    and "ob = fst (observation c h) @ snd (observation c h) @ concat g @ cmd"
  shows "step c s action =
     Inr (\<lparr>scaled_observation = scale c (num_fingers s) ob,
           reward = fmul (fsub (- compute_distance c
                                    (forward_kinematics c (take (3 * num_fingers s) ob)) g)
                            (fmul (velocity_cost_factor s)
                               (linalg_norm c (take (3 * num_fingers s)
                                               (drop (3 * num_fingers s) ob)))))
                      (py_float (steps_per_control s)),
           done_signal = False, is_success = 0\<rparr>,
          s\<lparr>smoothed_action := Some cmd,
            finger := h @ concat (replicate n [SetAction cmd ''position'', StepRobot False]),
            logger := logger s @ [Append (fst (observation c h))
                        (concat (forward_kinematics c (fst (observation c h))))]\<rparr>)"
  using assms(1,2) unfolding step_def Let_def assms(3-6)
  by (simp add: control_loop_first compute_reward_Some)

lemma reset_unsynchronized:
  assumes "next_start_time s = None"
    and "target = sample_random_joint_positions_for_reaching c (finger s @ [ResetFinger])"
    and "g = forward_kinematics c target"
    and "h = finger s @ [ResetFinger, SampleJointPositions, ResetGoalMarkers g]"
  shows "reset c s =
     Inr (scale c (num_fingers s)
            (fst (observation c h) @ snd (observation c h) @ concat g @ reset_finger c (finger s)),
          (update_smoothing s)\<lparr>episode_count := episode_count s + 1, smoothed_action := None,
             finger := h, goal := Some g, logger := logger s @ [NewEpisode target g]\<rparr>)"
  using assms(1) unfolding reset_def Let_def assms(2-4)
  by (simp add: get_observation_Some)

lemma step_fields:
  assumes "step c s action = Inr (r, s')"
  shows "num_fingers s' = num_fingers s \<and> steps_per_control s' = steps_per_control s
       \<and> smoothing_start_episode s' = smoothing_start_episode s
       \<and> smoothing_increase_step s' = smoothing_increase_step s
       \<and> smoothing_stop_episode s' = smoothing_stop_episode s
       \<and> smoothing_alpha s' = smoothing_alpha s
       \<and> episode_count s' = episode_count s
       \<and> velocity_cost_factor s' = velocity_cost_factor s
       \<and> goal s' = goal s \<and> goal s \<noteq> None \<and> 0 < steps_per_control s
       \<and> done_signal r = False \<and> is_success r = 0"
proof (cases "goal s")
  case None
  then show ?thesis using assms by (simp add: step_no_goal)
next
  case (Some g)
  show ?thesis
  proof (cases "nat (steps_per_control s)")
    case 0
    then show ?thesis using assms Some by (simp add: step_zero)
  next
    case (Suc n)
    from step_Suc [OF Some Suc refl refl refl refl, of c action] assms Suc Some
    show ?thesis by auto
  qed
qed

subsection \<open>Construction with the concrete finger, and runs\<close>

lemma before_reset_explicit:
  assumes "init_steps_per_control (control_rate_s a) = Inr n"
    and "init_smoothing (smoothing_params a) = Inr (start, alpha, inc, stop)"
    and "\<not> synchronize a"
  shows "before_reset now a =
     Inr \<lparr>num_fingers = (if finger_type a = ''single'' then 1 else 3),
          steps_per_control = n, smoothing_start_episode = start, smoothing_alpha = alpha,
          smoothing_increase_step = inc, smoothing_stop_episode = stop,
          smoothed_action = None, episode_count = 0,
          velocity_cost_factor = velocity_cost a,
          finger = [Create (use_real_robot a) (enable_visualization a) (finger_type a)
                      (sampling_strategy a), DisplayGoal],
          logger = [], next_start_time = None, goal = None\<rparr>"
  using assms by (simp add: before_reset_def)

lemma init_still:
  assumes "init_steps_per_control rate = Inr n"
    and "init_smoothing p = Inr (start, alpha, inc, stop)"
  shows "\<exists>s. init still_finger now (single_args rate p) = Inr s
          \<and> num_fingers s = 1 \<and> steps_per_control s = n
          \<and> goal s = Some [[1 / 2, - 1 / 4, 1]] \<and> smoothed_action s = None
          \<and> velocity_cost_factor s = 0
          \<and> smoothing_start_episode s = start \<and> smoothing_stop_episode s = stop
          \<and> smoothing_increase_step s = inc
          \<and> smoothing_alpha s = (if start \<le> 0 \<and> less_bound 0 stop then fadd alpha inc else alpha)
          \<and> episode_count s = 1
          \<and> finger s = [Create False False ''single'' ''separated'', DisplayGoal, ResetFinger,
                         SampleJointPositions, ResetGoalMarkers [[1 / 2, - 1 / 4, 1]]]
          \<and> logger s = [NewEpisode [1 / 2, - 1 / 4, 1] [[1 / 2, - 1 / 4, 1]]]
          \<and> next_start_time s = None"
proof -
  let ?a = "single_args rate p"
  have b: "before_reset now ?a =
     Inr \<lparr>num_fingers = 1,
          steps_per_control = n, smoothing_start_episode = start, smoothing_alpha = alpha,
          smoothing_increase_step = inc, smoothing_stop_episode = stop,
          smoothed_action = None, episode_count = 0,
          velocity_cost_factor = 0,
          finger = [Create False False ''single'' ''separated'', DisplayGoal],
          logger = [], next_start_time = None, goal = None\<rparr>"
    using before_reset_explicit [of ?a n start alpha inc stop now] assms
    by (simp add: single_args_def)
  show ?thesis
    unfolding init_def b
    by (simp add: reset_unsynchronized [OF _ refl refl refl] update_smoothing_def still_finger_def)
qed

lemma run_fields:
  assumes "run c s cs = Inr s'"
  shows "num_fingers s' = num_fingers s \<and> steps_per_control s' = steps_per_control s
       \<and> smoothing_start_episode s' = smoothing_start_episode s
       \<and> smoothing_increase_step s' = smoothing_increase_step s
       \<and> smoothing_stop_episode s' = smoothing_stop_episode s
       \<and> velocity_cost_factor s' = velocity_cost_factor s
       \<and> episode_count s' = episode_count s + int (count_list cs Reset)
       \<and> (goal s \<noteq> None \<longrightarrow> goal s' \<noteq> None)"
  using assms
proof (induction cs arbitrary: s)
  case Nil
  then show ?case by simp
next
  case (Cons x cs)
  show ?case
  proof (cases x)
    case (Step a)
    with Cons.prems obtain r s1 where s1: "step c s a = Inr (r, s1)" and rest: "run c s1 cs = Inr s'"
      by (auto simp: try_bind_eq_Inr)
    from Cons.IH [OF rest] step_fields [OF s1] Step show ?thesis by simp
  next
    case Reset
    with Cons.prems obtain ob s1 where s1: "reset c s = Inr (ob, s1)" and rest: "run c s1 cs = Inr s'"
      by (auto simp: try_bind_eq_Inr)
    from Cons.IH [OF rest] reset_fields [OF s1] Reset show ?thesis by simp
  qed
qed

lemma fsqrt_0: "fsqrt 0 = 0"
  by (simp add: fsqrt_def)

lemma foldl_fadd_zeros: "\<forall>x\<in>set v. x = 0 \<Longrightarrow> foldl fadd 0 v = 0"
  by (induction v) (simp_all add: fadd_def)

lemma euclid_norm_zeros:
  assumes "\<forall>x\<in>set v. x = 0"
  shows "euclid_norm v = 0"
proof -
  have "\<forall>y\<in>set (map (\<lambda>x. fmul x x) v). y = 0" using assms by auto
  then show ?thesis unfolding euclid_norm_def by (simp only: foldl_fadd_zeros fsqrt_0)
qed

lemma map2_fsub_self: "\<forall>x\<in>set (map2 fsub v v). x = 0"
  by (simp add: zip_same_conv_map fsub_def)

lemma compute_distance_self:
  assumes "\<forall>v. (\<forall>x\<in>set v. x = 0) \<longrightarrow> linalg_norm c v = 0"
  shows "compute_distance c a a = 0"
proof -
  have "\<forall>x\<in>set (concat (map2 (map2 fsub) a a)). x = 0"
    using map2_fsub_self by (auto simp: zip_same_conv_map)
  then show ?thesis unfolding compute_distance_def using assms by blast
qed

lemma step_returns:
  assumes "goal s = Some g" and "0 < steps_per_control s"
  shows "\<exists>r s'. step c s action = Inr (r, s')"
proof -
  obtain n where "nat (steps_per_control s) = Suc n"
    using assms(2) by (cases "nat (steps_per_control s)") simp_all
  from step_Suc [OF assms(1) this refl refl refl refl] show ?thesis by blast
qed

subsection \<open>C7: a step never signals termination or success\<close>

text \<open>
  Claim C7. Whenever \<open>step\<close> returns, in any state of the environment, the returned
  \<open>done\<close> flag is False and \<open>info['is_success']\<close> is 0.
\<close>

theorem step_never_done:
  "step c s action = Inr (r, s') \<longrightarrow> done_signal r = False \<and> is_success r = 0"
  using step_fields [of c s action r s'] by blast

theorem step_never_done_witness:
  "\<exists>s r s'. init still_finger 0 (single_args (fl64 (2 / 100)) (test_params (fl64 (9 / 10)))) = Inr s
      \<and> step still_finger s [0, 0, 0] = Inr (r, s')
      \<and> done_signal r = False \<and> is_success r = 0"
proof -
  have "init_smoothing (test_params (fl64 (9 / 10))) = Inr (0, fl64 (9 / 10), 0, Infinity)"
    by (rule init_smoothing_test) simp_all
  from init_still [OF steps_02 this, of 0] obtain s where
    s: "init still_finger 0 (single_args (fl64 (2 / 100)) (test_params (fl64 (9 / 10)))) = Inr s"
    and g: "goal s = Some [[1 / 2, - 1 / 4, 1]]" and n: "steps_per_control s = 5"
    by blast
  from step_returns [OF g, of still_finger "[0, 0, 0]"] n obtain r s'
    where st: "step still_finger s [0, 0, 0] = Inr (r, s')" by auto
  from step_never_done [of still_finger s "[0, 0, 0]" r s'] st
  have "done_signal r = False \<and> is_success r = 0" by blast
  with s st show ?thesis by blast
qed

subsection \<open>C8: a step before any reset\<close>

text \<open>
  Claim C8. A \<open>step\<close> on an environment whose goal has never been assigned, which is the
  state of the constructor before its final call of \<open>reset\<close>, fails with an
  AttributeError for the missing goal. The constructor ends with \<open>reset\<close>, so every
  constructed environment has a goal, and it keeps one through every later call.
\<close>

theorem step_before_reset:
  "(goal s = None \<longrightarrow> step c s action = Inl (AttributeError ''goal''))
   \<and> (before_reset now a = Inr s0 \<longrightarrow>
        goal s0 = None \<and> step c s0 action = Inl (AttributeError ''goal''))
   \<and> (init c now a = Inr s1 \<and> run c s1 cs = Inr s2 \<longrightarrow> goal s1 \<noteq> None \<and> goal s2 \<noteq> None)"
proof (intro conjI impI)
  assume "goal s = None"
  then show "step c s action = Inl (AttributeError ''goal'')" by (rule step_no_goal)
next
  assume b: "before_reset now a = Inr s0"
  from before_reset_Inr [OF b] show g: "goal s0 = None" by blast
  then show "step c s0 action = Inl (AttributeError ''goal'')" by (rule step_no_goal)
next
  assume a: "init c now a = Inr s1 \<and> run c s1 cs = Inr s2"
  then obtain s0 ob where "reset c s0 = Inr (ob, s1)" by (auto simp: init_Inr_iff)
  from reset_fields(10) [OF this] show g1: "goal s1 \<noteq> None" .
  from a run_fields [of c s1 cs s2] g1 show "goal s2 \<noteq> None" by blast
qed

theorem step_before_reset_witness:
  "(\<exists>s0. before_reset 0 (single_args (fl64 (2 / 100)) (test_params (fl64 (9 / 10)))) = Inr s0
        \<and> goal s0 = None \<and> step still_finger s0 [0, 0, 0] = Inl (AttributeError ''goal''))
   \<and> (\<exists>s1 s2. init still_finger 0 (single_args (fl64 (2 / 100)) (test_params (fl64 (9 / 10)))) = Inr s1
        \<and> run still_finger s1 [Step [0, 0, 0], Reset] = Inr s2
        \<and> goal s1 \<noteq> None \<and> goal s2 \<noteq> None)"
proof -
  let ?a = "single_args (fl64 (2 / 100)) (test_params (fl64 (9 / 10)))"
  have sm: "init_smoothing (test_params (fl64 (9 / 10))) = Inr (0, fl64 (9 / 10), 0, Infinity)"
    by (rule init_smoothing_test) simp_all
  obtain s0 where s0: "before_reset 0 ?a = Inr s0"
    using before_reset_ok [of ?a 5 _ 0] steps_02 sm by auto
  from step_before_reset [of s0 still_finger "[0, 0, 0]" 0 ?a s0] s0
  have 1: "goal s0 = None \<and> step still_finger s0 [0, 0, 0] = Inl (AttributeError ''goal'')"
    by blast
  from init_still [OF steps_02 sm, of 0] obtain s1 where
    s1: "init still_finger 0 ?a = Inr s1"
    and g: "goal s1 = Some [[1 / 2, - 1 / 4, 1]]" and n: "steps_per_control s1 = 5"
    by blast
  from step_returns [OF g, of still_finger "[0, 0, 0]"] n obtain r s'
    where st: "step still_finger s1 [0, 0, 0] = Inr (r, s')" by auto
  obtain ob s2 where rs: "reset still_finger s' = Inr (ob, s2)" using reset_total by blast
  have run: "run still_finger s1 [Step [0, 0, 0], Reset] = Inr s2" by (simp add: st rs)
  from step_before_reset [of s1 still_finger "[0, 0, 0]" 0 ?a s1 s1 "[Step [0, 0, 0], Reset]" s2]
    s1 run
  have "goal s1 \<noteq> None \<and> goal s2 \<noteq> None" by blast
  with 1 s0 s1 run show ?thesis by blast
qed

subsection \<open>The constructor, case by case\<close>



lemma steps_008: "init_steps_per_control (fl64 (8 / 1000)) = Inr 2"
  by (simp add: init_steps_per_control_def Let_def) (simp add: fl_eval)

subsection \<open>C2: the repeat count and its validation\<close>

text \<open>
  Claim C2. The constructor computes the repeat count as
  \<open>N = int(round(control_rate_s / 0.004))\<close>, accepts the control rate when
  \<open>|control_rate_s - N * 0.004| \<le> 1e-6\<close> and fails with AssertionError otherwise; the
  environment it builds has that repeat count, and it builds one whenever the rest of
  the configuration is accepted. A control rate of 0.004 gives \<open>N = 1\<close>, 0.02 gives
  \<open>N = 5\<close>, and with 0.01 the construction fails. (The quotient is assumed not to
  overflow: on an infinity \<open>round\<close> raises OverflowError instead.)
\<close>

theorem steps_per_control_checked:
  assumes "\<not> overflows (fl64 (rate / simulation_rate_s))"
  shows "init_steps_per_control rate =
      (if \<bar>fsub rate (fmul (py_float (py_round (fl64 (rate / simulation_rate_s))))
                 simulation_rate_s)\<bar> \<le> fl64 (1 / 1000000)
       then Inr (py_round (fl64 (rate / simulation_rate_s))) else Inl AssertionError)
   \<and> simulation_rate_s = fl64 (4 / 1000)
   \<and> (control_rate_s a = rate \<longrightarrow>
        (\<forall>e. init_steps_per_control rate = Inl e \<longrightarrow> init c now a = Inl e)
      \<and> (\<forall>s. init c now a = Inr s \<longrightarrow> init_steps_per_control rate = Inr (steps_per_control s))
      \<and> (\<forall>n sm. init_steps_per_control rate = Inr n
            \<and> init_smoothing (smoothing_params a) = Inr sm \<and> \<not> synchronize a
            \<longrightarrow> (\<exists>s. init c now a = Inr s \<and> steps_per_control s = n)))
   \<and> init_steps_per_control (fl64 (4 / 1000)) = Inr 1
   \<and> init_steps_per_control (fl64 (2 / 100)) = Inr 5
   \<and> init_steps_per_control (fl64 (1 / 100)) = Inl AssertionError"
proof -
  have eq: "init_steps_per_control rate =
      (if \<bar>fsub rate (fmul (py_float (py_round (fl64 (rate / simulation_rate_s))))
                 simulation_rate_s)\<bar> \<le> fl64 (1 / 1000000)
       then Inr (py_round (fl64 (rate / simulation_rate_s))) else Inl AssertionError)"
    by (simp add: init_steps_per_control_def Let_def)
  have fail: "init c now a = Inl e"
    if "control_rate_s a = rate" and "init_steps_per_control rate = Inl e" for e
    using that by (simp add: init_Inl before_reset_steps_Inl)
  have pin: "init_steps_per_control rate = Inr (steps_per_control s)"
    if r: "control_rate_s a = rate" and i: "init c now a = Inr s" for s
  proof -
    from i obtain s0 ob where s0: "before_reset now a = Inr s0" and rs: "reset c s0 = Inr (ob, s)"
      by (auto simp: init_Inr_iff)
    from before_reset_Inr [OF s0] obtain n where
      "init_steps_per_control (control_rate_s a) = Inr n" "steps_per_control s0 = n" by blast
    then show ?thesis using reset_fields(2) [OF rs] r by simp
  qed
  have acc: "\<exists>s. init c now a = Inr s \<and> steps_per_control s = n"
    if r: "control_rate_s a = rate" and n: "init_steps_per_control rate = Inr n"
      and sm: "init_smoothing (smoothing_params a) = Inr sm" and sy: "\<not> synchronize a" for n sm
  proof -
    from r n have n': "init_steps_per_control (control_rate_s a) = Inr n" by simp
    obtain s where s: "init c now a = Inr s" using init_ok [OF n' sm sy] by blast
    from pin [OF r s] n have "steps_per_control s = n" by simp
    with s show ?thesis by blast
  qed
  from eq fail pin acc steps_004 steps_02 steps_01 show ?thesis
    by (simp add: simulation_rate_s_def)
qed

theorem steps_per_control_checked_witness:
  "(\<exists>s. init still_finger 0 (single_args (fl64 (2 / 100)) (test_params (fl64 (9 / 10)))) = Inr s
        \<and> steps_per_control s = 5)
   \<and> init still_finger 0 (single_args (fl64 (1 / 100)) (test_params (fl64 (9 / 10))))
       = Inl AssertionError
   \<and> init_steps_per_control (fl64 (8 / 1000)) = Inr 2
   \<and> \<not> overflows (fl64 (fl64 (2 / 100) / simulation_rate_s))
   \<and> \<not> overflows (fl64 (fl64 (1 / 100) / simulation_rate_s))
   \<and> \<not> overflows (fl64 (fl64 (8 / 1000) / simulation_rate_s))"
proof -
  let ?p = "test_params (fl64 (9 / 10))"
  let ?a = "single_args (fl64 (2 / 100)) ?p"
  let ?b = "single_args (fl64 (1 / 100)) ?p"
  have o1: "\<not> overflows (fl64 (fl64 (2 / 100) / simulation_rate_s))"
    by (simp add: overflows_def fl_eval)
  have o2: "\<not> overflows (fl64 (fl64 (1 / 100) / simulation_rate_s))"
    by (simp add: overflows_def fl_eval)
  have o3: "\<not> overflows (fl64 (fl64 (8 / 1000) / simulation_rate_s))"
    by (simp add: overflows_def fl_eval)
  have sm: "init_smoothing ?p = Inr (0, fl64 (9 / 10), 0, Infinity)"
    by (rule init_smoothing_test) simp_all
  from steps_per_control_checked [OF o1, of ?a still_finger 0] sm
  have 1: "\<exists>s. init still_finger 0 ?a = Inr s \<and> steps_per_control s = 5"
    by (simp only: single_args_simps) blast
  from steps_per_control_checked [OF o2, of ?b still_finger 0]
  have 2: "init still_finger 0 ?b = Inl AssertionError"
    by (simp only: single_args_simps) blast
  have tol: "\<bar>fsub (fl64 (8 / 1000))
        (fmul (py_float (py_round (fl64 (fl64 (8 / 1000) / simulation_rate_s))))
           simulation_rate_s)\<bar> \<le> fl64 (1 / 1000000)"
    by (simp add: fl_eval)
  have n8: "py_round (fl64 (fl64 (8 / 1000) / simulation_rate_s)) = 2"
    by (simp add: fl_eval)
  from steps_per_control_checked [OF o3, of ?a still_finger 0] tol n8
  have 3: "init_steps_per_control (fl64 (8 / 1000)) = Inr 2" by simp
  from 1 2 3 o1 o2 o3 show ?thesis by blast
qed

subsection \<open>C6, as amended: what the constructor does with a schedule\<close>



end
